theory Spec2Isabelle
  imports Main "HOL-Library.Finite_Map" "HOL-Library.List_Lexorder" "HOL-Library.Char_ord"
begin

section \<open>Shared vocabulary\<close>

text \<open>
  Go strings are byte sequences compared bytewise: \<^typ>\<open>string\<close> with the lexicographic
  order on lists over the order of characters by their code. A Go map is a finite map
  (\<^typ>\<open>('k, 'v) fmap\<close>): finite, one value per key, no order of its own.
\<close>

type_synonym time = int

text \<open>
  Errors returned by the code. \<open>PathError op path msg\<close> is \<open>&os.PathError{Op, Path, Err:
  errors.New(msg)}\<close>; \<open>OtherError\<close> is any error that comes out of a collaborator;
  \<open>ErrCrossDevice\<close> is the error of a rename from one child to another;
  \<open>IndexOutOfRange\<close> and \<open>NilDereference\<close> stand for the runtime panics of indexing an
  empty slice and of calling through a nil value, which unwind through the caller.
\<close>

datatype error =
    ErrNotExist
  | ErrPermission
  | PathError string string string
  | OtherError string
  | IndexOutOfRange
  | NilDereference
  | ErrCrossDevice

text \<open>\<open>shared.StaticFileInfo\<close>, also used for what a child's \<open>fs.FileInfo\<close> reports.\<close>

record FileInfo =
  Named :: string
  Sized :: int
  Moded :: nat
  ModTimed :: time
  Dir :: bool

section \<open>webdavfs: the read-only remote file\<close>

text \<open>
  What \<open>readOnlyFile\<close> uses and this repository's sources do not hold, taken as
  parameters: of the \<open>gowebdav.Client\<close> its \<open>Stat\<close> and \<open>ReadStream\<close> (each returns an
  error or a value, and the client's next state), of the \<open>io.ReadCloser\<close> that
  \<open>ReadStream\<close> returns its \<open>Read\<close> (given the length of the buffer) and \<open>Close\<close>, and the
  package's \<open>translateWebDAVError\<close>.
\<close>

record ('c, 's) webdeps =
  clientStat :: "'c \<Rightarrow> string \<Rightarrow> (error + FileInfo) \<times> 'c"
  clientReadStream :: "'c \<Rightarrow> string \<Rightarrow> (error + 's) \<times> 'c"
  streamRead :: "'s \<Rightarrow> nat \<Rightarrow> (nat \<times> error option) \<times> 's"
  streamClose :: "'s \<Rightarrow> error option \<times> 's"
  translateWebDAVError :: "error \<Rightarrow> error"

text \<open>
  \<open>readOnlyFile\<close>: the embedded \<open>io.ReadCloser\<close> and \<open>fi\<close> are \<open>None\<close> when nil. The stream
  belongs to the file alone, so its state is kept in the field.
\<close>

record ('c, 's) readOnlyFile =
  ReadCloser :: "'s option"
  name :: string
  initialFI :: FileInfo
  fi :: "FileInfo option"
  client :: "'c"

text \<open>The calls a file operation makes on the client and on the stream, in order.\<close>

datatype event =
    EvStat string
  | EvReadStream string
  | EvStreamRead nat
  | EvStreamClose

definition SeekStart :: int where "SeekStart = 0"
definition SeekCurrent :: int where "SeekCurrent = 1"
definition SeekEnd :: int where "SeekEnd = 2"

text \<open>
  \<open>statIfNecessary\<close>: \<open>f.fi, err = f.client.Stat(...)\<close> stores what the client returns, nil
  with an error.
\<close>

definition statIfNecessary ::
  "('c, 's) webdeps \<Rightarrow> ('c, 's) readOnlyFile
     \<Rightarrow> error option \<times> ('c, 's) readOnlyFile \<times> event list" where
  "statIfNecessary w f =
     (case fi f of
        Some i \<Rightarrow> (None, f, [])
      | None \<Rightarrow>
          (case clientStat w (client f) (name f) of
             (Inl err, c') \<Rightarrow>
               (Some (translateWebDAVError w err), f \<lparr> fi := None, client := c' \<rparr>,
                [EvStat (name f)])
           | (Inr i, c') \<Rightarrow>
               (None, f \<lparr> fi := Some i, client := c' \<rparr>, [EvStat (name f)])))"

definition Seek ::
  "('c, 's) webdeps \<Rightarrow> ('c, 's) readOnlyFile \<Rightarrow> int \<Rightarrow> int
     \<Rightarrow> (error + int) \<times> ('c, 's) readOnlyFile \<times> event list" where
  "Seek w f offset whence =
     (case statIfNecessary w f of
        (Some err, f', ev) \<Rightarrow> (Inl err, f', ev)
      | (None, f', ev) \<Rightarrow>
          (case fi f' of
             None \<Rightarrow> (Inl NilDereference, f', ev)
           | Some i \<Rightarrow>
               (if whence = SeekEnd \<and> offset = 0 then (Inr (Sized i), f', ev)
                else if whence = SeekStart \<and> offset = 0 then (Inr 0, f', ev)
                else (Inl (PathError ''seek'' (Named i) ''seek not supported''), f', ev))))"

definition initReaderIfNecessary ::
  "('c, 's) webdeps \<Rightarrow> ('c, 's) readOnlyFile
     \<Rightarrow> error option \<times> ('c, 's) readOnlyFile \<times> event list" where
  "initReaderIfNecessary w f =
     (case ReadCloser f of
        Some s \<Rightarrow> (None, f, [])
      | None \<Rightarrow>
          (case clientReadStream w (client f) (name f) of
             (Inl err, c') \<Rightarrow>
               (Some (translateWebDAVError w err),
                f \<lparr> ReadCloser := None, client := c' \<rparr>, [EvReadStream (name f)])
           | (Inr s, c') \<Rightarrow>
               (None, f \<lparr> ReadCloser := Some s, client := c' \<rparr>,
                [EvReadStream (name f)])))"

text \<open>\<open>Read\<close> into a buffer of length \<open>n\<close>: the number of bytes read and the error.\<close>

definition Read ::
  "('c, 's) webdeps \<Rightarrow> ('c, 's) readOnlyFile \<Rightarrow> nat
     \<Rightarrow> (nat \<times> error option) \<times> ('c, 's) readOnlyFile \<times> event list" where
  "Read w f n =
     (case initReaderIfNecessary w f of
        (Some err, f', ev) \<Rightarrow> ((0, Some err), f', ev)
      | (None, f', ev) \<Rightarrow>
          (case ReadCloser f' of
             None \<Rightarrow> ((0, Some NilDereference), f', ev)
           | Some s \<Rightarrow>
               (case streamRead w s n of
                  (r, s') \<Rightarrow> (r, f' \<lparr> ReadCloser := Some s' \<rparr>, ev @ [EvStreamRead n]))))"

definition Close ::
  "('c, 's) webdeps \<Rightarrow> ('c, 's) readOnlyFile
     \<Rightarrow> error option \<times> ('c, 's) readOnlyFile \<times> event list" where
  "Close w f =
     (case ReadCloser f of
        None \<Rightarrow> (None, f, [])
      | Some s \<Rightarrow>
          (case streamClose w s of
             (r, s') \<Rightarrow> (r, f \<lparr> ReadCloser := Some s' \<rparr>, [EvStreamClose])))"

text \<open>A run of \<open>Read\<close> calls with the given buffer lengths: the file and all events.\<close>

fun Reads ::
  "('c, 's) webdeps \<Rightarrow> ('c, 's) readOnlyFile \<Rightarrow> nat list
     \<Rightarrow> ('c, 's) readOnlyFile \<times> event list" where
  "Reads w f [] = (f, [])"
| "Reads w f (n # ns) =
     (case Read w f n of
        (r, f', ev) \<Rightarrow> (case Reads w f' ns of (f'', ev') \<Rightarrow> (f'', ev @ ev')))"

text \<open>The events that are calls of \<open>ReadStream\<close>.\<close>

fun isReadStream :: "event \<Rightarrow> bool" where
  "isReadStream (EvReadStream p) = True"
| "isReadStream e = False"

section \<open>path.Join of the Go standard library\<close>

fun splitSlash :: "string \<Rightarrow> string list" where
  "splitSlash [] = [[]]"
| "splitSlash (c # cs) =
     (if c = CHR ''/'' then [] # splitSlash cs
      else (case splitSlash cs of [] \<Rightarrow> [[c]] | w # ws \<Rightarrow> (c # w) # ws))"

fun joinSlash :: "string list \<Rightarrow> string" where
  "joinSlash [] = []"
| "joinSlash [e] = e"
| "joinSlash (e # es) = e @ ''/'' @ joinSlash es"

text \<open>
  One element of \<open>path.Clean\<close>'s scan, on the stack of elements kept so far (top first):
  empty elements and \<open>.\<close> are dropped, \<open>..\<close> removes the element before it when that is a
  real one, is kept on an unrooted path that cannot backtrack, and is dropped at the
  start of a rooted path.
\<close>

fun cleanStep :: "bool \<Rightarrow> string list \<Rightarrow> string \<Rightarrow> string list" where
  "cleanStep rooted st e =
     (if e = [] \<or> e = ''.'' then st
      else if e = ''..'' then
        (case st of
           [] \<Rightarrow> (if rooted then [] else [e])
         | t # ts \<Rightarrow> (if t = ''..'' then e # st else ts))
      else e # st)"

definition Clean :: "string \<Rightarrow> string" where
  "Clean p =
     (if p = [] then ''.''
      else
        (let rooted = (hd p = CHR ''/'');
             body = joinSlash (rev (foldl (cleanStep rooted) [] (splitSlash p)));
             out = (if rooted then CHR ''/'' # body else body)
         in if out = [] then ''.'' else out))"

text \<open>
  \<open>path.Join\<close>: the empty string when there is no element or all are empty, otherwise
  the non-empty prefix-skipped elements joined by slashes and cleaned.
\<close>

definition Join :: "string list \<Rightarrow> string" where
  "Join elem =
     (if concat elem = [] then []
      else Clean (joinSlash (dropWhile (\<lambda>e. e = []) elem)))"

section \<open>compositefs\<close>

text \<open>A child filesystem under its name (\<open>type child struct\<close>).\<close>

record 'fs child =
  name :: string
  fs :: "'fs"

text \<open>
  \<open>compositeFileSystem\<close>: \<open>children\<close> is the slice sorted by name, \<open>childrenMap\<close> the map;
  \<open>now\<close> is the reading of the clock during the operation. The logger and the mutex are
  left out: every operation is modelled as one atomic step.
\<close>

record 'fs compositeFileSystem =
  statChildren :: bool
  now :: time
  children :: "'fs child list"
  childrenMap :: "(string, 'fs child) fmap"

record Opts =
  StatChildren :: bool
  Clock :: "time option"

text \<open>
  What the package uses and this repository's sources do not hold, taken as parameters:
  \<open>pathutil.Split\<close>, \<open>pathutil.IsRoot\<close>, \<open>shared.ReadOnlyDirInfo\<close>, and of every child
  \<open>webdav.FileSystem\<close> its \<open>Stat\<close>, its \<open>OpenFile\<close> and whether it implements \<open>io.Closer\<close>.
\<close>

record ('fs, 'file) deps =
  Split :: "string \<Rightarrow> string list"
  IsRoot :: "string \<Rightarrow> bool"
  ReadOnlyDirInfo :: "string \<Rightarrow> time \<Rightarrow> FileInfo"
  fsStat :: "'fs \<Rightarrow> string \<Rightarrow> error + FileInfo"
  fsOpenFile :: "'fs \<Rightarrow> string \<Rightarrow> int \<Rightarrow> nat \<Rightarrow> error + 'file"
  isCloser :: "'fs \<Rightarrow> bool"

text \<open>The calls an operation makes on child filesystems, in order.\<close>

datatype 'fs call =
    CallStat 'fs string
  | CallOpenFile 'fs string int nat
  | CallClose 'fs
  | CallMkdir 'fs string nat
  | CallRemoveAll 'fs string
  | CallRename 'fs string string

text \<open>A \<open>webdav.File\<close> returned by the composite: its own \<open>shared.DirFile\<close> or a child's file.\<close>

datatype 'file File = DirFile FileInfo | ChildFile 'file

text \<open>\<open>New\<close>; \<open>wall\<close> is what \<open>time.Now\<close> reads when no clock is given.\<close>

definition New :: "Opts \<Rightarrow> time \<Rightarrow> 'fs compositeFileSystem" where
  "New opts wall =
     \<lparr> statChildren = StatChildren opts,
       now = (case Clock opts of Some t \<Rightarrow> t | None \<Rightarrow> wall),
       children = [],
       childrenMap = fmempty \<rparr>"

text \<open>
  \<open>rebuildChildren\<close>: the values of the map appended in the map's iteration order, then
  sorted by name. The iteration order is taken to be the order of the keys and the sort
  to be stable; both choices are invisible as long as every child sits under its own
  name, which \<open>AddChild\<close> and \<open>SetChildren\<close> guarantee.
\<close>

definition rebuildChildren :: "'fs compositeFileSystem \<Rightarrow> 'fs compositeFileSystem" where
  "rebuildChildren cfs =
     cfs \<lparr> children :=
       sort_key name
         (map (\<lambda>k. the (fmlookup (childrenMap cfs) k))
              (sorted_list_of_fset (fmdom (childrenMap cfs)))) \<rparr>"

definition AddChild ::
  "'fs compositeFileSystem \<Rightarrow> string \<Rightarrow> 'fs \<Rightarrow> 'fs compositeFileSystem" where
  "AddChild cfs nm childFS =
     (let c = \<lparr> name = nm, fs = childFS \<rparr>
      in rebuildChildren (cfs \<lparr> childrenMap := fmupd nm c (childrenMap cfs) \<rparr>))"

text \<open>The \<open>Close\<close> calls made on a list of displaced children: one per \<open>io.Closer\<close>.\<close>

definition closeAll :: "('fs, 'file) deps \<Rightarrow> 'fs child list \<Rightarrow> 'fs call list" where
  "closeAll d cs = map (\<lambda>c. CallClose (fs c)) (filter (\<lambda>c. isCloser d (fs c)) cs)"

definition RemoveChild ::
  "('fs, 'file) deps \<Rightarrow> 'fs compositeFileSystem \<Rightarrow> string
     \<Rightarrow> 'fs compositeFileSystem \<times> 'fs call list" where
  "RemoveChild d cfs nm =
     (let old = fmlookup (childrenMap cfs) nm;
          cfs' = rebuildChildren (cfs \<lparr> childrenMap := fmdrop nm (childrenMap cfs) \<rparr>)
      in (cfs', (case old of None \<Rightarrow> [] | Some oldChild \<Rightarrow> closeAll d [oldChild])))"

definition SetChildren ::
  "('fs, 'file) deps \<Rightarrow> 'fs compositeFileSystem \<Rightarrow> (string, 'fs) fmap
     \<Rightarrow> 'fs compositeFileSystem \<times> 'fs call list" where
  "SetChildren d cfs chs =
     (let newChildrenMap = fmmap_keys (\<lambda>nm childFS. \<lparr> name = nm, fs = childFS \<rparr>) chs;
          oldChildren = children cfs;
          cfs' = rebuildChildren (cfs \<lparr> childrenMap := newChildrenMap \<rparr>)
      in (cfs', closeAll d oldChildren))"

definition GetChild :: "'fs compositeFileSystem \<Rightarrow> string \<Rightarrow> 'fs option" where
  "GetChild cfs nm =
     (case fmlookup (childrenMap cfs) nm of None \<Rightarrow> None | Some c \<Rightarrow> Some (fs c))"

text \<open>
  \<open>pathToChild\<close>: on success the remainder of the path, whether there is a remainder, and
  the child. Indexing the components of a path that has none panics.
\<close>

definition pathToChild ::
  "('fs, 'file) deps \<Rightarrow> 'fs compositeFileSystem \<Rightarrow> string
     \<Rightarrow> error + (string \<times> bool \<times> 'fs child)" where
  "pathToChild d cfs nm =
     (case Split d nm of
        [] \<Rightarrow> Inl IndexOutOfRange
      | first # rest \<Rightarrow>
          (case fmlookup (childrenMap cfs) first of
             None \<Rightarrow> Inl ErrNotExist
           | Some c \<Rightarrow> Inr (Join rest, rest \<noteq> [], c)))"

text \<open>
  The loop of \<open>Stat\<close> on the root with \<open>statChildren\<close>: every child's root is stat'ed in
  order, the first error ends the loop, and the modification time becomes the first
  child's and then any later one.
\<close>

fun statRoot ::
  "('fs, 'file) deps \<Rightarrow> 'fs child list \<Rightarrow> nat \<Rightarrow> FileInfo
     \<Rightarrow> (error + FileInfo) \<times> 'fs call list" where
  "statRoot d [] i info = (Inr info, [])"
| "statRoot d (c # cs) i info =
     (case fsStat d (fs c) ''/'' of
        Inl err \<Rightarrow> (Inl err, [CallStat (fs c) ''/''])
      | Inr childInfo \<Rightarrow>
          (let info' = (if i = 0 \<or> ModTimed info < ModTimed childInfo
                      then info \<lparr> ModTimed := ModTimed childInfo \<rparr> else info);
               r = statRoot d cs (Suc i) info'
           in (fst r, CallStat (fs c) ''/'' # snd r)))"

definition Stat ::
  "('fs, 'file) deps \<Rightarrow> 'fs compositeFileSystem \<Rightarrow> string
     \<Rightarrow> (error + FileInfo) \<times> 'fs call list" where
  "Stat d cfs nm =
     (if IsRoot d nm then
        (let info = ReadOnlyDirInfo d nm (now cfs)
         in if statChildren cfs then statRoot d (children cfs) 0 info else (Inr info, []))
      else
        (case pathToChild d cfs nm of
           Inl err \<Rightarrow> (Inl err, [])
         | Inr (path, onChild, c) \<Rightarrow>
             (if \<not> onChild \<and> \<not> statChildren cfs
              then (Inr (ReadOnlyDirInfo d nm (now cfs)), [])
              else
                (case fsStat d (fs c) path of
                   Inl err \<Rightarrow> (Inl err, [CallStat (fs c) path])
                 | Inr info \<Rightarrow>
                     (Inr \<lparr> Named = nm, Sized = Sized info, Moded = Moded info,
                            ModTimed = ModTimed info, Dir = Dir info \<rparr>,
                      [CallStat (fs c) path])))))"

text \<open>
  The \<open>LoadChildren\<close> closure of the root's \<open>DirFile\<close>, run on the composite as it is when
  the directory is read: one entry per element of \<open>children\<close>, in that order.
\<close>

fun loadLoop ::
  "('fs, 'file) deps \<Rightarrow> bool \<Rightarrow> time \<Rightarrow> 'fs child list
     \<Rightarrow> (error + FileInfo list) \<times> 'fs call list" where
  "loadLoop d sc t [] = (Inr [], [])"
| "loadLoop d sc t (c # cs) =
     (if sc then
        (case fsStat d (fs c) ''/'' of
           Inl err \<Rightarrow> (Inl err, [CallStat (fs c) ''/''])
         | Inr info \<Rightarrow>
             (let childInfo = \<lparr> Named = name c, Sized = Sized info, Moded = Moded info,
                                ModTimed = ModTimed info, Dir = Dir info \<rparr>;
                  r = loadLoop d sc t cs
              in (map_sum id ((#) childInfo) (fst r), CallStat (fs c) ''/'' # snd r)))
      else
        (let childInfo = ReadOnlyDirInfo d (name c) t;
             r = loadLoop d sc t cs
         in (map_sum id ((#) childInfo) (fst r), snd r)))"

definition LoadChildren ::
  "('fs, 'file) deps \<Rightarrow> 'fs compositeFileSystem
     \<Rightarrow> (error + FileInfo list) \<times> 'fs call list" where
  "LoadChildren d cfs = loadLoop d (statChildren cfs) (now cfs) (children cfs)"

definition OpenFile ::
  "('fs, 'file) deps \<Rightarrow> 'fs compositeFileSystem \<Rightarrow> string \<Rightarrow> int \<Rightarrow> nat
     \<Rightarrow> (error + 'file File) \<times> 'fs call list" where
  "OpenFile d cfs nm flag perm =
     (if IsRoot d nm then
        (case Stat d cfs nm of
           (Inl err, l) \<Rightarrow> (Inl err, l)
         | (Inr di, l) \<Rightarrow> (Inr (DirFile di), l))
      else
        (case pathToChild d cfs nm of
           Inl err \<Rightarrow> (Inl err, [])
         | Inr (path, onChild, c) \<Rightarrow>
             (if \<not> onChild
              then (map_sum id ChildFile (fsOpenFile d (fs c) ''/'' flag perm),
                    [CallOpenFile (fs c) ''/'' flag perm])
              else (map_sum id ChildFile (fsOpenFile d (fs c) path flag perm),
                    [CallOpenFile (fs c) path flag perm]))))"

text \<open>
  Modelled from the spec: \<open>Mkdir\<close>, \<open>RemoveAll\<close> and \<open>Rename\<close> of the composite are not in
  the sources at hand. On the root each of them fails with a permission error. On any
  other name the first component selects the child: an unknown one fails with "does not
  exist", a known one with no remainder has the operation forwarded with \<open>/\<close>, and a known
  one with a remainder has it forwarded with the remainder. \<open>Rename\<close> routes both names,
  fails with a cross-device error when they select distinct children and forwards within
  a single child. The child's own operation is a parameter.
\<close>

definition Mkdir ::
  "('fs, 'file) deps \<Rightarrow> ('fs \<Rightarrow> string \<Rightarrow> nat \<Rightarrow> error option)
     \<Rightarrow> 'fs compositeFileSystem \<Rightarrow> string \<Rightarrow> nat \<Rightarrow> error option \<times> 'fs call list" where
  "Mkdir d fsMkdir cfs nm perm =
     (if IsRoot d nm then (Some ErrPermission, [])
      else
        (case pathToChild d cfs nm of
           Inl err \<Rightarrow> (Some err, [])
         | Inr (path, onChild, c) \<Rightarrow>
             (let p = (if onChild then path else ''/'')
              in (fsMkdir (fs c) p perm, [CallMkdir (fs c) p perm]))))"

definition RemoveAll ::
  "('fs, 'file) deps \<Rightarrow> ('fs \<Rightarrow> string \<Rightarrow> error option)
     \<Rightarrow> 'fs compositeFileSystem \<Rightarrow> string \<Rightarrow> error option \<times> 'fs call list" where
  "RemoveAll d fsRemoveAll cfs nm =
     (if IsRoot d nm then (Some ErrPermission, [])
      else
        (case pathToChild d cfs nm of
           Inl err \<Rightarrow> (Some err, [])
         | Inr (path, onChild, c) \<Rightarrow>
             (let p = (if onChild then path else ''/'')
              in (fsRemoveAll (fs c) p, [CallRemoveAll (fs c) p]))))"

definition Rename ::
  "('fs, 'file) deps \<Rightarrow> ('fs \<Rightarrow> string \<Rightarrow> string \<Rightarrow> error option)
     \<Rightarrow> 'fs compositeFileSystem \<Rightarrow> string \<Rightarrow> string \<Rightarrow> error option \<times> 'fs call list" where
  "Rename d fsRename cfs oldName newName =
     (if IsRoot d oldName \<or> IsRoot d newName then (Some ErrPermission, [])
      else
        (case pathToChild d cfs oldName of
           Inl err \<Rightarrow> (Some err, [])
         | Inr (oldPath, oldOnChild, oldChild) \<Rightarrow>
             (case pathToChild d cfs newName of
                Inl err \<Rightarrow> (Some err, [])
              | Inr (newPath, newOnChild, newChild) \<Rightarrow>
                  (if name oldChild \<noteq> name newChild then (Some ErrCrossDevice, [])
                   else
                     (let p = (if oldOnChild then oldPath else ''/'');
                          q = (if newOnChild then newPath else ''/'')
                      in (fsRename (fs oldChild) p q, [CallRename (fs oldChild) p q]))))))"

text \<open>A mutation of the set of children through the composite's own methods.\<close>

datatype 'fs mutation =
    MutAddChild string 'fs
  | MutRemoveChild string
  | MutSetChildren "(string, 'fs) fmap"

fun mutate ::
  "('fs, 'file) deps \<Rightarrow> 'fs compositeFileSystem \<Rightarrow> 'fs mutation
     \<Rightarrow> 'fs compositeFileSystem" where
  "mutate d cfs (MutAddChild nm childFS) = AddChild cfs nm childFS"
| "mutate d cfs (MutRemoveChild nm) = fst (RemoveChild d cfs nm)"
| "mutate d cfs (MutSetChildren chs) = fst (SetChildren d cfs chs)"

section \<open>tailfs: the gateway for remote nodes\<close>

text \<open>
  Modelled from the spec: the type \<open>Permission\<close> and its constants are declared outside
  the sources at hand; a permissions object, given a share name, returns one of \<open>None\<close>,
  \<open>ReadOnly\<close>, \<open>ReadWrite\<close>. \<open>Permissions.For\<close> is taken as a function.
\<close>

datatype Permission = PermissionNone | PermissionReadOnly | PermissionReadWrite

type_synonym Permissions = "string \<Rightarrow> Permission"

definition writeMethods :: "string \<Rightarrow> bool" where
  "writeMethods m \<longleftrightarrow>
     m \<in> set [''PUT'', ''POST'', ''COPY'', ''LOCK'', ''UNLOCK'', ''MKCOL'', ''MOVE'',
              ''PROPPATCH'']"

text \<open>Of the request, its method and \<open>r.URL.Path\<close>.\<close>

record Request =
  Method :: string
  Path :: string

text \<open>Of \<open>fileSystemForRemote\<close>, the field that \<open>ServeHTTP\<close> reads.\<close>

record 'fs fileSystemForRemote =
  fileSystems :: "(string, 'fs) fmap"

text \<open>
  What \<open>ServeHTTP\<close> does with the request: \<open>http.Error\<close> with a message and a status,
  the WebDAV handler run on the per-request composite, or the panic of indexing the
  components of a path that has none.
\<close>

datatype 'fs Response =
    HttpError string nat
  | Served "'fs compositeFileSystem"
  | Panicked

definition StatusNotFound :: nat where "StatusNotFound = 404"
definition StatusForbidden :: nat where "StatusForbidden = 403"

definition ServeHTTP ::
  "('fs, 'file) deps \<Rightarrow> 'fs fileSystemForRemote \<Rightarrow> Permissions \<Rightarrow> Request \<Rightarrow> time
     \<Rightarrow> 'fs Response" where
  "ServeHTTP d s permissions r wall =
     (let isWrite = writeMethods (Method r);
          refused =
            (if isWrite then
               (case Split d (Path r) of
                  [] \<Rightarrow> Some Panicked
                | share # rest \<Rightarrow>
                    (case permissions share of
                       PermissionNone \<Rightarrow> Some (HttpError ''not found'' StatusNotFound)
                     | PermissionReadOnly \<Rightarrow>
                         Some (HttpError ''permission denied'' StatusForbidden)
                     | PermissionReadWrite \<Rightarrow> None))
             else None)
      in case refused of
           Some resp \<Rightarrow> resp
         | None \<Rightarrow>
             (let chs = fmfilter (\<lambda>nm. permissions nm \<noteq> PermissionNone) (fileSystems s);
                  cfs = New \<lparr> StatChildren = True, Clock = None \<rparr> wall
              in Served (fst (SetChildren d cfs chs))))"

section \<open>tailfs: the gateway for local clients\<close>

text \<open>
  The filesystems under the local gateway: a composite, held by reference (its address
  in the heap of composites), or a remote filesystem made by \<open>webdavfs.New\<close> from a URL
  and a transport.
\<close>

datatype fileSystem = Composite nat | Remote string nat

type_synonym heap = "fileSystem compositeFileSystem list"

text \<open>\<open>fileSystemForLocal\<close>: the top-level composite, which the gateway owns.\<close>

record fileSystemForLocal =
  cfs :: "fileSystem compositeFileSystem"

text \<open>
  \<open>SetRemotes\<close>, on the gateway and the heap of the composites installed as children.
  A new composite is allocated at the end of the heap. The type assertion on the child
  found under the domain panics when that child is no composite.
\<close>

definition SetRemotes ::
  "(fileSystem, 'file) deps \<Rightarrow> fileSystemForLocal \<Rightarrow> heap \<Rightarrow> string
     \<Rightarrow> (string, string) fmap \<Rightarrow> nat \<Rightarrow> time
     \<Rightarrow> error + (fileSystemForLocal \<times> heap \<times> fileSystem call list)" where
  "SetRemotes d s h domain namesToURLS transport wall =
     (let remotes = fmmap (\<lambda>url. Remote url transport) namesToURLS
      in case GetChild (cfs s) domain of
           None \<Rightarrow>
             (let a = length h;
                  domainChild = New \<lparr> StatChildren = False, Clock = None \<rparr> wall;
                  r1 = SetChildren d (cfs s) (fmupd domain (Composite a) fmempty);
                  r2 = SetChildren d domainChild remotes
              in Inr (s \<lparr> cfs := fst r1 \<rparr>, h @ [fst r2], snd r1 @ snd r2))
         | Some (Composite a) \<Rightarrow>
             (if a < length h
              then (let r2 = SetChildren d (h ! a) remotes
                    in Inr (s, h[a := fst r2], snd r2))
              else Inl NilDereference)
         | Some (Remote url t) \<Rightarrow> Inl NilDereference)"

section \<open>A sample environment\<close>

text \<open>
  Modelled from the spec: \<open>pathutil.Split\<close> returns the components of a path with leading
  and trailing empty entries removed, and \<open>pathutil.IsRoot\<close> holds of the root path.
  Both are used only to run the model on concrete inputs.
\<close>

definition trimSlash :: "string \<Rightarrow> string" where
  "trimSlash p =
     rev (dropWhile (\<lambda>c. c = CHR ''/'') (rev (dropWhile (\<lambda>c. c = CHR ''/'') p)))"

definition sampleSplit :: "string \<Rightarrow> string list" where
  "sampleSplit p = splitSlash (trimSlash p)"

definition sampleIsRoot :: "string \<Rightarrow> bool" where
  "sampleIsRoot p \<longleftrightarrow> p = ''/''"

text \<open>
  Child filesystems named by strings: every one is a directory at its root, can be
  closed, and fails every call when it is called \<open>broken\<close>.
\<close>

definition sampleDeps :: "(string, string) deps" where
  "sampleDeps =
     \<lparr> Split = sampleSplit,
       IsRoot = sampleIsRoot,
       ReadOnlyDirInfo =
         (\<lambda>nm t. \<lparr> Named = nm, Sized = 0, Moded = 365, ModTimed = t, Dir = True \<rparr>),
       fsStat =
         (\<lambda>f p. if f = ''broken'' then Inl (OtherError ''unreachable'')
                 else Inr \<lparr> Named = p, Sized = 0, Moded = 493, ModTimed = 7, Dir = True \<rparr>),
       fsOpenFile =
         (\<lambda>f p flag perm. if f = ''broken'' then Inl (OtherError ''unreachable'')
                           else Inr (f @ '':'' @ p)),
       isCloser = (\<lambda>f. True) \<rparr>"

definition sampleOpts :: "bool \<Rightarrow> Opts" where
  "sampleOpts sc = \<lparr> StatChildren = sc, Clock = Some 5 \<rparr>"

text \<open>The same for the local gateway, whose children are composites and remotes.\<close>

definition localDeps :: "(fileSystem, string) deps" where
  "localDeps =
     \<lparr> Split = sampleSplit,
       IsRoot = sampleIsRoot,
       ReadOnlyDirInfo =
         (\<lambda>nm t. \<lparr> Named = nm, Sized = 0, Moded = 365, ModTimed = t, Dir = True \<rparr>),
       fsStat = (\<lambda>f p. Inl ErrNotExist),
       fsOpenFile = (\<lambda>f p flag perm. Inl ErrNotExist),
       isCloser = (\<lambda>f. True) \<rparr>"

text \<open>
  A client whose state counts the calls made on it and which knows one file, \<open>/f\<close>, of
  ten bytes; a stream is the pair of the bytes left and the number of times it was
  closed.
\<close>

definition sampleWeb :: "(nat, nat \<times> nat) webdeps" where
  "sampleWeb =
     \<lparr> clientStat =
         (\<lambda>c p. (if p = ''/f''
                  then Inr \<lparr> Named = ''f'', Sized = 10, Moded = 420, ModTimed = 7,
                             Dir = False \<rparr>
                  else Inl ErrNotExist, Suc c)),
       clientReadStream =
         (\<lambda>c p. (if p = ''/f'' then Inr (10, 0) else Inl ErrNotExist, Suc c)),
       streamRead =
         (\<lambda>s n. ((min n (fst s), if fst s = 0 then Some (OtherError ''EOF'') else None),
                  (fst s - min n (fst s), snd s))),
       streamClose = (\<lambda>s. (None, (fst s, Suc (snd s)))),
       translateWebDAVError = (\<lambda>e. e) \<rparr>"

definition sampleFile :: "string \<Rightarrow> (nat, nat \<times> nat) readOnlyFile" where
  "sampleFile p =
     \<lparr> ReadCloser = None, name = p,
       initialFI = \<lparr> Named = ''f'', Sized = 10, Moded = 420, ModTimed = 7, Dir = False \<rparr>,
       fi = None, client = 0 \<rparr>"

text \<open>A local gateway with nothing installed, and the peers of a domain.\<close>

definition localStart :: fileSystemForLocal where
  "localStart = \<lparr> cfs = New \<lparr> StatChildren = False, Clock = None \<rparr> 0 \<rparr>"

definition sampleURLs :: "(string, string) fmap" where
  "sampleURLs = fmupd ''peer'' ''http://peer/'' fmempty"

text \<open>
  The gateway and the heap after \<open>SetRemotes\<close> has installed that domain as \<open>a.ts.net\<close>.
\<close>

definition localA :: fileSystemForLocal where
  "localA =
     \<lparr> cfs = AddChild (New \<lparr> StatChildren = False, Clock = None \<rparr> 0) ''a.ts.net''
               (Composite 0) \<rparr>"

definition heapA :: heap where
  "heapA =
     [AddChild (New \<lparr> StatChildren = False, Clock = None \<rparr> 0) ''peer''
        (Remote ''http://peer/'' 0)]"

text \<open>The gateway after \<open>SetRemotes\<close> has then installed the same peers as \<open>b.ts.net\<close>.\<close>

definition localB :: fileSystemForLocal where
  "localB =
     \<lparr> cfs = AddChild (New \<lparr> StatChildren = False, Clock = None \<rparr> 0) ''b.ts.net''
               (Composite 1) \<rparr>"

text \<open>Children's operations that succeed, for running the routed operations.\<close>

definition sampleMkdir :: "string \<Rightarrow> string \<Rightarrow> nat \<Rightarrow> error option" where
  "sampleMkdir f p perm = None"

definition sampleRemoveAll :: "string \<Rightarrow> string \<Rightarrow> error option" where
  "sampleRemoveAll f p = None"

definition sampleRename :: "string \<Rightarrow> string \<Rightarrow> string \<Rightarrow> error option" where
  "sampleRename f p q = None"

section \<open>The invariant of the composite\<close>

text \<open>
  Every child sits in the map under its own name, and the slice holds the children of the
  map in the order of their names.
\<close>

definition keyed :: "'fs compositeFileSystem \<Rightarrow> bool" where
  "keyed C \<longleftrightarrow> (\<forall>k c. fmlookup (childrenMap C) k = Some c \<longrightarrow> name c = k)"

definition consistent :: "'fs compositeFileSystem \<Rightarrow> bool" where
  "consistent C \<longleftrightarrow>
     keyed C \<and>
     children C =
       map (\<lambda>k. the (fmlookup (childrenMap C) k)) (sorted_list_of_fset (fmdom (childrenMap C)))"


text \<open>A remote gateway with three shares, and a principal who may read \<open>alpha\<close> and write
  \<open>beta\<close>.\<close>

definition samplePerms :: Permissions where
  "samplePerms nm =
     (if nm = ''alpha'' then PermissionReadOnly
      else if nm = ''beta'' then PermissionReadWrite else PermissionNone)"

definition sampleRemote :: "string fileSystemForRemote" where
  "sampleRemote =
     \<lparr> fileSystems = fmupd ''gamma'' ''fsG'' (fmupd ''beta'' ''fsB'' (fmupd ''alpha'' ''fsA'' fmempty)) \<rparr>"


text \<open>Two children, and a run of mutations that starts from them.\<close>

definition sampleChildren :: "(string, string) fmap" where
  "sampleChildren = fmupd ''b'' ''fsB'' (fmupd ''a'' ''fsA'' fmempty)"


definition sampleMutations :: "string mutation list" where
  "sampleMutations =
     [MutSetChildren sampleChildren, MutAddChild ''0'' ''fs0'', MutRemoveChild ''a'']"

section \<open>The slice and the map agree\<close>

lemma strict_sorted_list_of_fset: "sorted_wrt (<) (sorted_list_of_fset S)"
  by (simp add: sorted_list_of_fset.rep_eq)

lemma length_sorted_list_of_fset: "length (sorted_list_of_fset S) = fcard S"
  by (simp add: sorted_list_of_fset.rep_eq fcard.rep_eq)

lemma sorted_list_of_fset_empty: "sorted_list_of_fset {||} = []"
  by (simp add: sorted_list_of_fset.rep_eq)

lemma keyed_names:
  assumes "keyed C"
  shows "map (\<lambda>k. name (the (fmlookup (childrenMap C) k))) (sorted_list_of_fset (fmdom (childrenMap C)))
         = sorted_list_of_fset (fmdom (childrenMap C))"
proof -
  have "\<And>k. k \<in> set (sorted_list_of_fset (fmdom (childrenMap C)))
          \<Longrightarrow> name (the (fmlookup (childrenMap C) k)) = k"
    using assms by (auto simp: keyed_def fmlookup_dom_iff)
  then show ?thesis by (intro map_idI) simp
qed

lemma rebuild_consistent:
  assumes "keyed C"
  shows "consistent (rebuildChildren C)"
proof -
  let ?ks = "sorted_list_of_fset (fmdom (childrenMap C))"
  let ?vs = "map (\<lambda>k. the (fmlookup (childrenMap C) k)) ?ks"
  have "map name ?vs = ?ks" using keyed_names[OF assms] by (simp add: comp_def)
  moreover have "sorted ?ks"
    using strict_sorted_list_of_fset[of "fmdom (childrenMap C)"] by (simp add: strict_sorted_iff)
  ultimately have "sort_key name ?vs = ?vs" by (simp add: sort_key_id_if_sorted)
  then show ?thesis using assms by (simp add: consistent_def keyed_def rebuildChildren_def)
qed

lemma consistent_names:
  assumes "consistent C"
  shows "map name (children C) = sorted_list_of_fset (fmdom (childrenMap C))"
  using assms keyed_names[of C] by (simp add: consistent_def comp_def)

lemma consistent_New: "consistent (New opts wall)"
  by (simp add: consistent_def keyed_def New_def sorted_list_of_fset_empty)

lemma consistent_AddChild: "consistent C \<Longrightarrow> consistent (AddChild C nm childFS)"
  unfolding AddChild_def Let_def
  by (rule rebuild_consistent) (simp add: consistent_def keyed_def)

lemma consistent_RemoveChild: "consistent C \<Longrightarrow> consistent (fst (RemoveChild d C nm))"
  unfolding RemoveChild_def Let_def fst_conv
  by (rule rebuild_consistent) (simp add: consistent_def keyed_def)

lemma consistent_SetChildren: "consistent (fst (SetChildren d C chs))"
  unfolding SetChildren_def Let_def fst_conv
  by (rule rebuild_consistent) (auto simp add: keyed_def)

lemma consistent_mutate: "consistent C \<Longrightarrow> consistent (mutate d C m)"
  by (cases m) (simp_all add: consistent_AddChild consistent_RemoveChild consistent_SetChildren)

lemma consistent_foldl: "consistent C \<Longrightarrow> consistent (foldl (mutate d) C ms)"
  by (induction ms arbitrary: C) (simp_all add: consistent_mutate)

section \<open>The loops over the children\<close>

lemma loadLoop_ok:
  assumes "sc \<longrightarrow> (\<forall>c \<in> set cs. \<exists>i. fsStat d (fs c) ''/'' = Inr i)"
  shows "\<exists>infos l. loadLoop d sc t cs = (Inr infos, l)
           \<and> length infos = length cs
           \<and> (sc \<longrightarrow> map Named infos = map name cs)
           \<and> (\<not> sc \<longrightarrow> infos = map (\<lambda>c. ReadOnlyDirInfo d (name c) t) cs)"
  using assms
proof (induction cs)
  case Nil
  then show ?case by simp
next
  case (Cons c cs)
  then obtain infos l where r: "loadLoop d sc t cs = (Inr infos, l)"
      and n: "length infos = length cs"
      and s1: "sc \<longrightarrow> map Named infos = map name cs"
      and s2: "\<not> sc \<longrightarrow> infos = map (\<lambda>c. ReadOnlyDirInfo d (name c) t) cs"
    by auto
  show ?case
  proof (cases sc)
    case True
    then obtain i where "fsStat d (fs c) ''/'' = Inr i" using Cons.prems by auto
    then show ?thesis using True r n s1 by (simp add: Let_def)
  next
    case False
    then show ?thesis using r n s2 by (simp add: Let_def)
  qed
qed

lemma statRoot_ok:
  assumes "\<forall>c \<in> set cs. \<exists>i. fsStat d (fs c) ''/'' = Inr i"
  shows "\<exists>di l. statRoot d cs i info = (Inr di, l)"
  using assms
proof (induction cs arbitrary: i info)
  case Nil
  then show ?case by simp
next
  case (Cons c cs)
  then obtain ci where ci: "fsStat d (fs c) ''/'' = Inr ci" by auto
  have rest: "\<forall>c \<in> set cs. \<exists>i. fsStat d (fs c) ''/'' = Inr i" using Cons.prems by simp
  obtain di l where "statRoot d cs (Suc i)
      (if i = 0 \<or> ModTimed info < ModTimed ci then info \<lparr> ModTimed := ModTimed ci \<rparr> else info)
      = (Inr di, l)"
    using Cons.IH [OF rest] by blast
  then show ?case using ci by (simp add: Let_def)
qed

lemma Join_Nil: "Join [] = []"
  by (simp add: Join_def)

lemma stat_single_component:
  assumes "\<not> IsRoot d nm"
    and "Split d nm = [first]"
    and "fmlookup (childrenMap C) first = Some c"
    and "statChildren C"
  shows "snd (Stat d C nm) = [CallStat (fs c) []]"
    and "snd (OpenFile d C nm flag perm) = [CallOpenFile (fs c) ''/'' flag perm]"
  using assms by (simp_all add: Stat_def OpenFile_def pathToChild_def Join_Nil split: sum.splits)

section \<open>Reading once the stream is latched\<close>

lemma Read_latched:
  "ReadCloser f = Some s \<Longrightarrow>
     Read w f n = (fst (streamRead w s n),
                   f \<lparr> ReadCloser := Some (snd (streamRead w s n)) \<rparr>, [EvStreamRead n])"
  by (simp add: Read_def initReaderIfNecessary_def split: prod.splits)

lemma Read_opens:
  "ReadCloser f = None \<Longrightarrow> clientReadStream w (client f) (readOnlyFile.name f) = (Inr s, c') \<Longrightarrow>
     Read w f n = (fst (streamRead w s n),
                   f \<lparr> ReadCloser := Some (snd (streamRead w s n)), client := c' \<rparr>,
                   [EvReadStream (readOnlyFile.name f), EvStreamRead n])"
  by (simp add: Read_def initReaderIfNecessary_def split: prod.splits)

lemma Read_open_fails:
  "ReadCloser f = None \<Longrightarrow> clientReadStream w (client f) (readOnlyFile.name f) = (Inl err, c') \<Longrightarrow>
     Read w f n = ((0, Some (translateWebDAVError w err)),
                   f \<lparr> ReadCloser := None, client := c' \<rparr>,
                   [EvReadStream (readOnlyFile.name f)])"
  by (simp add: Read_def initReaderIfNecessary_def)

lemma Reads_latched:
  "ReadCloser f \<noteq> None \<Longrightarrow>
     filter isReadStream (snd (Reads w f ns)) = []
     \<and> ReadCloser (fst (Reads w f ns)) \<noteq> None
     \<and> client (fst (Reads w f ns)) = client f"
proof (induction ns arbitrary: f)
  case Nil
  then show ?case by simp
next
  case (Cons n ns)
  then obtain s where s: "ReadCloser f = Some s" by auto
  let ?f' = "f \<lparr> ReadCloser := Some (snd (streamRead w s n)) \<rparr>"
  have "ReadCloser ?f' \<noteq> None" by simp
  from Cons.IH [OF this] show ?case
    by (simp add: Read_latched [OF s] case_prod_beta)
qed

lemma Read_unopened_calls:
  "ReadCloser f = None \<Longrightarrow>
     \<exists>ev. snd (snd (Read w f n)) = EvReadStream (readOnlyFile.name f) # ev"
  by (cases "clientReadStream w (client f) (readOnlyFile.name f)";
      cases "fst (clientReadStream w (client f) (readOnlyFile.name f))")
     (auto simp add: Read_def initReaderIfNecessary_def split: prod.splits)

section \<open>Routing failures\<close>

text \<open>
  C4. For a path that is not the root and whose first component is the name of no
  current child, \<open>pathToChild\<close> returns \<open>os.ErrNotExist\<close>, and every routed operation fails
  with that error having called no child filesystem: \<open>Stat\<close> and \<open>OpenFile\<close>, and \<open>Mkdir\<close>,
  \<open>RemoveAll\<close> and \<open>Rename\<close> (with such a path as either of its names, the other not being
  the root).
\<close>

theorem unknown_child_not_found:
  assumes "\<not> IsRoot d nm"
    and "Split d nm = first # rest"
    and "fmlookup (childrenMap C) first = None"
  shows "pathToChild d C nm = Inl ErrNotExist
       \<and> Stat d C nm = (Inl ErrNotExist, [])
       \<and> OpenFile d C nm flag perm = (Inl ErrNotExist, [])
       \<and> Mkdir d fsMkdir C nm perm = (Some ErrNotExist, [])
       \<and> RemoveAll d fsRemoveAll C nm = (Some ErrNotExist, [])
       \<and> (\<not> IsRoot d other \<longrightarrow>
            Rename d fsRename C nm other = (Some ErrNotExist, []))
       \<and> (\<not> IsRoot d other \<and> Split d other \<noteq> [] \<longrightarrow>
            Rename d fsRename C other nm = (Some ErrNotExist, []))"
proof -
  have p: "pathToChild d C nm = Inl ErrNotExist"
    using assms by (simp add: pathToChild_def)
  have o: "Split d other \<noteq> [] \<Longrightarrow>
             pathToChild d C other = Inl ErrNotExist \<or> (\<exists>r. pathToChild d C other = Inr r)"
    by (cases "Split d other"; cases "fmlookup (childrenMap C) (hd (Split d other))")
       (simp_all add: pathToChild_def)
  have r2: "\<not> IsRoot d other \<and> Split d other \<noteq> [] \<longrightarrow>
            Rename d fsRename C other nm = (Some ErrNotExist, [])"
    using assms(1) p o by (auto simp add: Rename_def)
  show ?thesis
    using assms(1) p r2 by (simp add: Stat_def OpenFile_def Mkdir_def RemoveAll_def Rename_def)
qed

theorem unknown_child_not_found_witness:
  "\<not> IsRoot sampleDeps ''/x/y''
   \<and> Split sampleDeps ''/x/y'' = [''x'', ''y'']
   \<and> fmlookup (childrenMap (AddChild (New (sampleOpts True) 0) ''a'' ''fsA'')) ''x'' = None
   \<and> pathToChild sampleDeps (AddChild (New (sampleOpts True) 0) ''a'' ''fsA'') ''/x/y''
       = Inl ErrNotExist
   \<and> Stat sampleDeps (AddChild (New (sampleOpts True) 0) ''a'' ''fsA'') ''/x/y''
       = (Inl ErrNotExist, [])
   \<and> OpenFile sampleDeps (AddChild (New (sampleOpts True) 0) ''a'' ''fsA'') ''/x/y'' 0 420
       = (Inl ErrNotExist, [])
   \<and> Mkdir sampleDeps sampleMkdir (AddChild (New (sampleOpts True) 0) ''a'' ''fsA'') ''/x/y'' 420
       = (Some ErrNotExist, [])
   \<and> RemoveAll sampleDeps sampleRemoveAll (AddChild (New (sampleOpts True) 0) ''a'' ''fsA'')
         ''/x/y''
       = (Some ErrNotExist, [])
   \<and> Rename sampleDeps sampleRename (AddChild (New (sampleOpts True) 0) ''a'' ''fsA'')
         ''/x/y'' ''/a/z''
       = (Some ErrNotExist, [])
   \<and> Rename sampleDeps sampleRename (AddChild (New (sampleOpts True) 0) ''a'' ''fsA'')
         ''/a/z'' ''/x/y''
       = (Some ErrNotExist, [])"
proof -
  have h1: "\<not> IsRoot sampleDeps ''/x/y''"
    by (simp add: sampleDeps_def sampleIsRoot_def)
  have h2: "Split sampleDeps ''/x/y'' = [''x'', ''y'']"
    by (simp add: sampleDeps_def sampleSplit_def trimSlash_def)
  have h3: "fmlookup (childrenMap (AddChild (New (sampleOpts True) 0) ''a'' ''fsA'')) ''x'' = None"
    by (simp add: AddChild_def rebuildChildren_def New_def Let_def)
  have h4: "\<not> IsRoot sampleDeps ''/a/z''"
    by (simp add: sampleDeps_def sampleIsRoot_def)
  have h5: "Split sampleDeps ''/a/z'' \<noteq> []"
    by (simp add: sampleDeps_def sampleSplit_def trimSlash_def)
  show ?thesis
    using unknown_child_not_found [OF h1 h2 h3, of 0 420 sampleMkdir sampleRemoveAll "''/a/z''"
        sampleRename] h1 h2 h3 h4 h5
    by simp
qed

section \<open>The gate on writes\<close>

text \<open>
  C1. For a request with a write-class method whose path has the share \<open>S\<close> as its first
  component, \<open>ServeHTTP\<close> answers 404 when the permissions give \<open>S\<close> none, 403 when they
  give it read-only, and runs the WebDAV handler on the per-request composite when they
  give it read-write.
\<close>

theorem write_gate:
  assumes "Method r \<in> {''PUT'', ''POST'', ''COPY'', ''LOCK'', ''UNLOCK'', ''MKCOL'', ''MOVE'',
                        ''PROPPATCH''}"
    and "Split d (Path r) = S # rest"
  shows "(permissions S = PermissionNone \<longrightarrow>
            ServeHTTP d s permissions r wall = HttpError ''not found'' 404)
       \<and> (permissions S = PermissionReadOnly \<longrightarrow>
            ServeHTTP d s permissions r wall = HttpError ''permission denied'' 403)
       \<and> (permissions S = PermissionReadWrite \<longrightarrow>
            ServeHTTP d s permissions r wall =
              Served (fst (SetChildren d (New \<lparr> StatChildren = True, Clock = None \<rparr> wall)
                (fmfilter (\<lambda>nm. permissions nm \<noteq> PermissionNone) (fileSystems s)))))"
proof -
  have w: "writeMethods (Method r)" using assms(1) by (simp add: writeMethods_def)
  show ?thesis
    using w assms(2)
    by (simp add: ServeHTTP_def StatusNotFound_def StatusForbidden_def)
qed

theorem write_gate_witness:
  "ServeHTTP sampleDeps sampleRemote samplePerms \<lparr> Method = ''PUT'', Path = ''/gamma/file'' \<rparr> 0
     = HttpError ''not found'' 404
   \<and> ServeHTTP sampleDeps sampleRemote samplePerms \<lparr> Method = ''PUT'', Path = ''/alpha/file'' \<rparr> 0
     = HttpError ''permission denied'' 403
   \<and> (\<exists>C. ServeHTTP sampleDeps sampleRemote samplePerms \<lparr> Method = ''PUT'', Path = ''/beta/file'' \<rparr> 0
     = Served C)"
proof -
  have m: "\<And>p. Method \<lparr> Method = ''PUT'', Path = p \<rparr> \<in> {''PUT'', ''POST'', ''COPY'', ''LOCK'', ''UNLOCK'', ''MKCOL'', ''MOVE'',
                        ''PROPPATCH''}" by simp
  have sg: "Split sampleDeps (Path \<lparr> Method = ''PUT'', Path = ''/gamma/file'' \<rparr>) = [''gamma'', ''file'']"
    by (simp add: sampleDeps_def sampleSplit_def trimSlash_def)
  have sa: "Split sampleDeps (Path \<lparr> Method = ''PUT'', Path = ''/alpha/file'' \<rparr>) = [''alpha'', ''file'']"
    by (simp add: sampleDeps_def sampleSplit_def trimSlash_def)
  have sb: "Split sampleDeps (Path \<lparr> Method = ''PUT'', Path = ''/beta/file'' \<rparr>) = [''beta'', ''file'']"
    by (simp add: sampleDeps_def sampleSplit_def trimSlash_def)
  show ?thesis
    using write_gate [OF m sg, of samplePerms sampleRemote 0]
      write_gate [OF m sa, of samplePerms sampleRemote 0]
      write_gate [OF m sb, of samplePerms sampleRemote 0]
    by (simp add: samplePerms_def)
qed

section \<open>The shares a principal sees\<close>

text \<open>
  C2. Whenever \<open>ServeHTTP\<close> runs the handler, the children of the per-request composite
  are exactly the installed filesystems whose share the permissions do not map to none:
  in the map, by lookup, and in the sorted slice that the listing of the root walks.
\<close>

theorem served_children:
  assumes "ServeHTTP d s permissions r wall = Served C"
  shows "fmdom' (childrenMap C)
           = {nm \<in> fmdom' (fileSystems s). permissions nm \<noteq> PermissionNone}
       \<and> (\<forall>nm. GetChild C nm =
             (if permissions nm \<noteq> PermissionNone then fmlookup (fileSystems s) nm else None))
       \<and> set (map name (children C))
           = {nm \<in> fmdom' (fileSystems s). permissions nm \<noteq> PermissionNone}
       \<and> sorted_wrt (<) (map name (children C))"
proof -
  let ?chs = "fmfilter (\<lambda>nm. permissions nm \<noteq> PermissionNone) (fileSystems s)"
  let ?C = "fst (SetChildren d (New \<lparr> StatChildren = True, Clock = None \<rparr> wall) ?chs)"
  have C: "C = ?C"
    using assms
    by (auto simp add: ServeHTTP_def Let_def split: if_splits list.splits Permission.splits option.splits)
  have cm: "childrenMap ?C = fmmap_keys (\<lambda>nm childFS. \<lparr> name = nm, fs = childFS \<rparr>) ?chs"
    by (simp add: SetChildren_def rebuildChildren_def)
  have names: "map name (children ?C) = sorted_list_of_fset (fmdom (childrenMap ?C))"
    by (rule consistent_names) (rule consistent_SetChildren)
  have d1: "fmdom' (childrenMap ?C)
           = {nm \<in> fmdom' (fileSystems s). permissions nm \<noteq> PermissionNone}"
    unfolding cm by (auto simp add: fmdom'_alt_def)
  have d2: "\<forall>nm. GetChild ?C nm =
             (if permissions nm \<noteq> PermissionNone then fmlookup (fileSystems s) nm else None)"
    unfolding GetChild_def cm by (auto split: option.splits)
  have d3: "set (map name (children ?C)) = fmdom' (childrenMap ?C)"
    unfolding names by (simp add: fmdom'_alt_def)
  have d4: "sorted_wrt (<) (map name (children ?C))"
    unfolding names by (rule strict_sorted_list_of_fset)
  show ?thesis unfolding C using d1 d2 d3 d4 by simp
qed

theorem served_children_witness:
  "ServeHTTP sampleDeps sampleRemote samplePerms \<lparr> Method = ''PROPFIND'', Path = ''/'' \<rparr> 0
     = Served (fst (SetChildren sampleDeps (New \<lparr> StatChildren = True, Clock = None \<rparr> 0)
         (fmfilter (\<lambda>nm. samplePerms nm \<noteq> PermissionNone) (fileSystems sampleRemote))))
   \<and> fmdom' (childrenMap (fst (SetChildren sampleDeps
         (New \<lparr> StatChildren = True, Clock = None \<rparr> 0)
         (fmfilter (\<lambda>nm. samplePerms nm \<noteq> PermissionNone) (fileSystems sampleRemote)))))
       = {''alpha'', ''beta''}"
proof -
  have h: "ServeHTTP sampleDeps sampleRemote samplePerms
             \<lparr> Method = ''PROPFIND'', Path = ''/'' \<rparr> 0
     = Served (fst (SetChildren sampleDeps (New \<lparr> StatChildren = True, Clock = None \<rparr> 0)
         (fmfilter (\<lambda>nm. samplePerms nm \<noteq> PermissionNone) (fileSystems sampleRemote))))"
    by (simp add: ServeHTTP_def writeMethods_def)
  have e: "{nm \<in> fmdom' (fileSystems sampleRemote). samplePerms nm \<noteq> PermissionNone}
             = {''alpha'', ''beta''}"
    by (auto simp add: sampleRemote_def samplePerms_def)
  show ?thesis
    using served_children [OF h] h e by simp
qed

section \<open>Listing the root\<close>

text \<open>
  C3 (amended). For a composite reached from \<open>New\<close> by any run of \<open>AddChild\<close>,
  \<open>RemoveChild\<close> and \<open>SetChildren\<close>, with \<open>n\<close> children: provided \<open>StatChildren\<close> is off or
  the \<open>Stat\<close> of every child's root succeeds, opening the root gives a directory file and
  its loader gives exactly \<open>n\<close> entries, the i-th built for the i-th child of the slice
  (named after it when the children are stat'ed, made by \<open>ReadOnlyDirInfo\<close> from its name
  otherwise), and the names of the slice are those of the map in strictly ascending
  order.
\<close>

theorem root_listing:
  assumes "C = foldl (mutate d) (New opts wall) ms"
    and "IsRoot d root"
    and "statChildren C \<longrightarrow> (\<forall>c \<in> set (children C). \<exists>i. fsStat d (fs c) ''/'' = Inr i)"
  shows "(\<exists>di l. OpenFile d C root flag perm = (Inr (DirFile di), l))
       \<and> (\<exists>infos l. LoadChildren d C = (Inr infos, l)
            \<and> length infos = fcard (fmdom (childrenMap C))
            \<and> length infos = length (children C)
            \<and> (statChildren C \<longrightarrow> map Named infos = map name (children C))
            \<and> (\<not> statChildren C \<longrightarrow>
                 infos = map (\<lambda>c. ReadOnlyDirInfo d (name c) (now C)) (children C)))
       \<and> sorted_wrt (<) (map name (children C))
       \<and> set (map name (children C)) = fmdom' (childrenMap C)"
proof -
  have con: "consistent C"
    unfolding assms(1) by (rule consistent_foldl) (rule consistent_New)
  have names: "map name (children C) = sorted_list_of_fset (fmdom (childrenMap C))"
    using con by (rule consistent_names)
  have len: "length (children C) = fcard (fmdom (childrenMap C))"
    using arg_cong [OF names, of length] by (simp add: length_sorted_list_of_fset)
  have p1: "\<exists>di l. OpenFile d C root flag perm = (Inr (DirFile di), l)"
  proof (cases "statChildren C")
    case True
    then obtain di l where
      "statRoot d (children C) 0 (ReadOnlyDirInfo d root (now C)) = (Inr di, l)"
      using statRoot_ok assms(3) by blast
    then show ?thesis using True assms(2) by (simp add: OpenFile_def Stat_def)
  next
    case False
    then show ?thesis using assms(2) by (simp add: OpenFile_def Stat_def)
  qed
  obtain infos l where ll: "loadLoop d (statChildren C) (now C) (children C) = (Inr infos, l)"
      and n: "length infos = length (children C)"
      and s1: "statChildren C \<longrightarrow> map Named infos = map name (children C)"
      and s2: "\<not> statChildren C \<longrightarrow>
                 infos = map (\<lambda>c. ReadOnlyDirInfo d (name c) (now C)) (children C)"
    using loadLoop_ok [OF assms(3), of "now C"] by blast
  have p2: "\<exists>infos l. LoadChildren d C = (Inr infos, l)
            \<and> length infos = fcard (fmdom (childrenMap C))
            \<and> length infos = length (children C)
            \<and> (statChildren C \<longrightarrow> map Named infos = map name (children C))
            \<and> (\<not> statChildren C \<longrightarrow>
                 infos = map (\<lambda>c. ReadOnlyDirInfo d (name c) (now C)) (children C))"
    unfolding LoadChildren_def using ll n s1 s2 len by simp
  have p3: "sorted_wrt (<) (map name (children C))"
    unfolding names by (rule strict_sorted_list_of_fset)
  have p4: "set (map name (children C)) = fmdom' (childrenMap C)"
    unfolding names by (simp add: fmdom'_alt_def)
  show ?thesis using p1 p2 p3 p4 by blast
qed

theorem root_listing_witness:
  "IsRoot sampleDeps ''/''
   \<and> children (foldl (mutate sampleDeps) (New (sampleOpts True) 0) sampleMutations)
       = [\<lparr> name = ''0'', fs = ''fs0'' \<rparr>, \<lparr> name = ''b'', fs = ''fsB'' \<rparr>]
   \<and> (\<exists>di l. OpenFile sampleDeps
         (foldl (mutate sampleDeps) (New (sampleOpts True) 0) sampleMutations) ''/'' 0 0
         = (Inr (DirFile di), l))
   \<and> (\<exists>infos l. LoadChildren sampleDeps
         (foldl (mutate sampleDeps) (New (sampleOpts True) 0) sampleMutations)
         = (Inr infos, l) \<and> length infos = 2 \<and> map Named infos = [''0'', ''b''])
   \<and> sorted_wrt (<) (map name
         (children (foldl (mutate sampleDeps) (New (sampleOpts True) 0) sampleMutations)))"
proof -
  define C where "C = foldl (mutate sampleDeps) (New (sampleOpts True) 0) sampleMutations"
  have h2: "IsRoot sampleDeps ''/''"
    by (simp add: sampleDeps_def sampleIsRoot_def)
  have ch: "children C = [\<lparr> name = ''0'', fs = ''fs0'' \<rparr>, \<lparr> name = ''b'', fs = ''fsB'' \<rparr>]"
    unfolding C_def
    by (simp add: sampleMutations_def SetChildren_def AddChild_def RemoveChild_def
        rebuildChildren_def sampleChildren_def New_def Let_def
        sorted_list_of_fset.rep_eq sorted_list_of_set_insert_remove insert_Diff_if)
  have sc: "statChildren C"
    unfolding C_def
    by (simp add: sampleMutations_def SetChildren_def AddChild_def RemoveChild_def
        rebuildChildren_def New_def Let_def sampleOpts_def)
  have h3: "statChildren C \<longrightarrow>
              (\<forall>c \<in> set (children C). \<exists>i. fsStat sampleDeps (fs c) ''/'' = Inr i)"
    unfolding ch by (simp add: sampleDeps_def)
  note r = root_listing [OF C_def h2 h3, of 0 0]
  have a: "\<exists>di l. OpenFile sampleDeps C ''/'' 0 0 = (Inr (DirFile di), l)"
    using r by blast
  obtain infos l where i1: "LoadChildren sampleDeps C = (Inr infos, l)"
      and i2: "length infos = length (children C)"
      and i3: "statChildren C \<longrightarrow> map Named infos = map name (children C)"
    using r by blast
  have b: "\<exists>infos l. LoadChildren sampleDeps C = (Inr infos, l) \<and> length infos = 2
             \<and> map Named infos = [''0'', ''b'']"
    using i1 i2 i3 sc by (simp add: ch)
  have c: "sorted_wrt (<) (map name (children C))"
    using r by blast
  show ?thesis
    using h2 ch a b c unfolding C_def by blast
qed

text \<open>
  With \<open>StatChildren\<close> on and a child whose \<open>Stat\<close> fails, the composite has one child and
  neither opening the root nor loading its entries yields any entry.
\<close>

theorem root_listing_counterexample:
  "length (children (AddChild (New (sampleOpts True) 0) ''broken'' ''broken'')) = 1
   \<and> OpenFile sampleDeps (AddChild (New (sampleOpts True) 0) ''broken'' ''broken'') ''/'' 0 0
       = (Inl (OtherError ''unreachable''), [CallStat ''broken'' ''/''])
   \<and> LoadChildren sampleDeps (AddChild (New (sampleOpts True) 0) ''broken'' ''broken'')
       = (Inl (OtherError ''unreachable''), [CallStat ''broken'' ''/''])"
  by code_simp

section \<open>The path handed to a child for its own root\<close>

text \<open>
  C5. On the path \<open>/a\<close> of a composite with \<open>StatChildren\<close> on and a child \<open>a\<close>, \<open>OpenFile\<close>
  calls the child's \<open>OpenFile\<close> with \<open>/\<close>, and \<open>Stat\<close> calls the child's \<open>Stat\<close> with the empty
  string, which is what \<open>path.Join\<close> makes of no component.
\<close>

theorem stat_child_itself_empty_path:
  "Stat sampleDeps (AddChild (New (sampleOpts True) 0) ''a'' ''fsA'') ''/a''
     = (Inr \<lparr> Named = ''/a'', Sized = 0, Moded = 493, ModTimed = 7, Dir = True \<rparr>,
        [CallStat ''fsA'' []])
   \<and> OpenFile sampleDeps (AddChild (New (sampleOpts True) 0) ''a'' ''fsA'') ''/a'' 0 0
     = (Inr (ChildFile ''fsA:/''), [CallOpenFile ''fsA'' ''/'' 0 0])"
  by code_simp

section \<open>Setting the same children twice\<close>

text \<open>
  C7 (amended). \<open>SetChildren(M)\<close> followed by \<open>SetChildren(M)\<close> leaves the composite as the
  first call left it, and the second call invokes \<open>Close\<close> on every child of \<open>M\<close> that has
  the capability, once each, in the order of the names.
\<close>

theorem set_children_twice:
  "fst (SetChildren d (fst (SetChildren d C M)) M) = fst (SetChildren d C M)
   \<and> snd (SetChildren d (fst (SetChildren d C M)) M)
       = map CallClose (filter (isCloser d)
           (map (\<lambda>k. the (fmlookup M k)) (sorted_list_of_fset (fmdom M))))"
proof -
  let ?C' = "fst (SetChildren d C M)"
  let ?m = "fmmap_keys (\<lambda>nm childFS. \<lparr> name = nm, fs = childFS \<rparr>) M"
  have cm: "childrenMap ?C' = ?m"
    by (simp add: SetChildren_def rebuildChildren_def)
  have con: "consistent ?C'" by (rule consistent_SetChildren)
  have ch: "children ?C'
      = map (\<lambda>k. the (fmlookup ?m k)) (sorted_list_of_fset (fmdom M))"
    using con unfolding consistent_def cm by simp
  have a: "fst (SetChildren d ?C' M) = ?C'"
    by (simp add: SetChildren_def rebuildChildren_def)
  have fsk: "\<And>k. k \<in> set (sorted_list_of_fset (fmdom M))
               \<Longrightarrow> fs (the (fmlookup ?m k)) = the (fmlookup M k)"
    by (auto simp add: fmlookup_dom_iff)
  have "snd (SetChildren d ?C' M) = closeAll d (children ?C')"
    by (simp add: SetChildren_def)
  also have "\<dots> = map CallClose (filter (isCloser d) (map fs (children ?C')))"
    by (simp add: closeAll_def filter_map comp_def)
  also have "map fs (children ?C')
      = map (\<lambda>k. the (fmlookup M k)) (sorted_list_of_fset (fmdom M))"
    unfolding ch using fsk by simp
  finally show ?thesis using a by simp
qed

text \<open>The second call closes both children of a map of two.\<close>

theorem set_children_twice_counterexample:
  "snd (SetChildren sampleDeps
          (fst (SetChildren sampleDeps (New (sampleOpts False) 0) sampleChildren))
          sampleChildren)
     = [CallClose ''fsA'', CallClose ''fsB'']"
  by code_simp

section \<open>Seeking in a read-only remote file\<close>

text \<open>
  C6 (amended). When the file's info is at hand, fetched before or by a fresh \<open>Stat\<close> that
  succeeds, \<open>Seek(0, SeekEnd)\<close> returns the size in that info, \<open>Seek(0, SeekStart)\<close> returns
  0, and every other pair of offset and whence fails with the error \<open>seek not supported\<close>.
  When the info is missing and the fresh \<open>Stat\<close> fails, every \<open>Seek\<close> fails with the
  translated error of the \<open>Stat\<close>.
\<close>

theorem seek_positions:
  "(fi f = Some i \<or> (fi f = None \<and> fst (clientStat w (client f) (readOnlyFile.name f)) = Inr i)
      \<longrightarrow> fst (Seek w f 0 SeekEnd) = Inr (Sized i)
        \<and> fst (Seek w f 0 SeekStart) = Inr 0
        \<and> (\<not> (offset = 0 \<and> (whence = SeekEnd \<or> whence = SeekStart)) \<longrightarrow>
             fst (Seek w f offset whence)
               = Inl (PathError ''seek'' (Named i) ''seek not supported'')))
   \<and> (fi f = None \<and> fst (clientStat w (client f) (readOnlyFile.name f)) = Inl e
      \<longrightarrow> fst (Seek w f offset whence) = Inl (translateWebDAVError w e))"
  by (cases "fi f"; cases "clientStat w (client f) (readOnlyFile.name f)")
     (auto simp add: Seek_def statIfNecessary_def SeekEnd_def SeekStart_def)

theorem seek_positions_witness:
  "fst (Seek sampleWeb (sampleFile ''/f'') 0 SeekEnd) = Inr 10
   \<and> fst (Seek sampleWeb (sampleFile ''/f'') 0 SeekStart) = Inr 0
   \<and> fst (Seek sampleWeb (sampleFile ''/f'') 3 SeekStart)
       = Inl (PathError ''seek'' ''f'' ''seek not supported'')
   \<and> fst (Seek sampleWeb (sampleFile ''/gone'') 3 SeekStart) = Inl ErrNotExist"
proof -
  have a: "fi (sampleFile ''/f'') = None \<and>
      fst (clientStat sampleWeb (client (sampleFile ''/f'')) (readOnlyFile.name (sampleFile ''/f'')))
        = Inr \<lparr> Named = ''f'', Sized = 10, Moded = 420, ModTimed = 7, Dir = False \<rparr>"
    by (simp add: sampleFile_def sampleWeb_def)
  have b: "fi (sampleFile ''/gone'') = None \<and>
      fst (clientStat sampleWeb (client (sampleFile ''/gone''))
            (readOnlyFile.name (sampleFile ''/gone''))) = Inl ErrNotExist"
    by (simp add: sampleFile_def sampleWeb_def)
  have t: "translateWebDAVError sampleWeb ErrNotExist = ErrNotExist"
    by (simp add: sampleWeb_def)
  have s: "\<not> ((3::int) = 0 \<and> (SeekStart = SeekEnd \<or> SeekStart = SeekStart))" by simp
  show ?thesis
    using seek_positions [of "sampleFile ''/f''" _ sampleWeb 3 SeekStart ErrNotExist]
      seek_positions [of "sampleFile ''/gone''" "initialFI (sampleFile ''/gone'')" sampleWeb 3
        SeekStart ErrNotExist]
      a b t s
    by simp
qed

text \<open>
  On a file that the server does not know, the fresh \<open>Stat\<close> fails and so do
  \<open>Seek(0, SeekEnd)\<close> and \<open>Seek(0, SeekStart)\<close>.
\<close>

theorem seek_counterexample:
  "Seek sampleWeb (sampleFile ''/gone'') 0 SeekEnd
     = (Inl ErrNotExist, (sampleFile ''/gone'') \<lparr> client := 1 \<rparr>, [EvStat ''/gone''])
   \<and> Seek sampleWeb (sampleFile ''/gone'') 0 SeekStart
     = (Inl ErrNotExist, (sampleFile ''/gone'') \<lparr> client := 1 \<rparr>, [EvStat ''/gone''])"
  by (simp add: Seek_def statIfNecessary_def sampleFile_def sampleWeb_def)

section \<open>Closing a read-only remote file\<close>

text \<open>
  C8 (amended). \<open>Close\<close> closes the stream exactly when one was opened. With no stream,
  \<open>Close\<close> returns success, changes nothing and calls nothing, and so does a second
  \<open>Close\<close>. With a stream, \<open>Close\<close> calls the stream's \<open>Close\<close> and returns its result, and a
  second \<open>Close\<close> calls the stream's \<open>Close\<close> once more and returns that result.
\<close>

theorem close_repeats:
  "(ReadCloser f = None \<longrightarrow>
      Close w f = (None, f, []) \<and> Close w (fst (snd (Close w f))) = (None, f, []))
   \<and> (ReadCloser f = Some s \<longrightarrow>
      Close w f = (fst (streamClose w s),
                   f \<lparr> ReadCloser := Some (snd (streamClose w s)) \<rparr>, [EvStreamClose])
      \<and> Close w (fst (snd (Close w f)))
          = (fst (streamClose w (snd (streamClose w s))),
             f \<lparr> ReadCloser := Some (snd (streamClose w (snd (streamClose w s)))) \<rparr>,
             [EvStreamClose]))"
  by (simp add: Close_def split: prod.splits)

theorem close_repeats_witness:
  "Close sampleWeb (sampleFile ''/f'') = (None, sampleFile ''/f'', [])
   \<and> Close sampleWeb ((sampleFile ''/f'') \<lparr> ReadCloser := Some (6, 0) \<rparr>)
       = (None, (sampleFile ''/f'') \<lparr> ReadCloser := Some (6, 1) \<rparr>, [EvStreamClose])"
proof -
  have a: "ReadCloser (sampleFile ''/f'') = None" by (simp add: sampleFile_def)
  have b: "ReadCloser ((sampleFile ''/f'') \<lparr> ReadCloser := Some (6, 0) \<rparr>) = Some (6, 0)"
    by simp
  have c: "streamClose sampleWeb (6, 0) = (None, (6, 1))" by (simp add: sampleWeb_def)
  show ?thesis
    using close_repeats [where f = "sampleFile ''/f''" and w = sampleWeb and s = "(6, 0)"]
      close_repeats [where f = "(sampleFile ''/f'') \<lparr> ReadCloser := Some (6, 0) \<rparr>"
        and w = sampleWeb and s = "(6, 0)"] a b
    by (simp add: c)
qed

text \<open>
  After a \<open>Read\<close> has opened the stream, the second \<open>Close\<close> closes the stream a second
  time.
\<close>

theorem close_twice_counterexample:
  "Close sampleWeb (fst (snd (Read sampleWeb (sampleFile ''/f'') 4)))
     = (None, (sampleFile ''/f'') \<lparr> ReadCloser := Some (6, 1), client := 1 \<rparr>, [EvStreamClose])
   \<and> Close sampleWeb (fst (snd (Close sampleWeb (fst (snd (Read sampleWeb (sampleFile ''/f'') 4))))))
     = (None, (sampleFile ''/f'') \<lparr> ReadCloser := Some (6, 2), client := 1 \<rparr>, [EvStreamClose])"
  by (simp add: Close_def Read_def initReaderIfNecessary_def sampleFile_def sampleWeb_def)

section \<open>Opening the stream once\<close>

text \<open>
  C9 (amended). A \<open>Read\<close> on a file without a stream calls \<open>ReadStream\<close>. When that
  succeeds the stream is latched and read, and in the whole run of this and any later
  \<open>Read\<close>s \<open>ReadStream\<close> is called that one time: a \<open>Read\<close> on a file with a stream reads
  that stream, and no run of \<open>Read\<close>s from there calls \<open>ReadStream\<close> or loses the stream.
  When \<open>ReadStream\<close> fails, \<open>Read\<close> returns the translated error and no bytes, nothing is
  latched, and the next \<open>Read\<close> calls \<open>ReadStream\<close> again.
\<close>

theorem read_opens_once:
  "(ReadCloser f = None \<and> clientReadStream w (client f) (readOnlyFile.name f) = (Inr s, c') \<longrightarrow>
      Read w f n = (fst (streamRead w s n),
                    f \<lparr> ReadCloser := Some (snd (streamRead w s n)), client := c' \<rparr>,
                    [EvReadStream (readOnlyFile.name f), EvStreamRead n])
      \<and> filter isReadStream (snd (Reads w f (n # ns))) = [EvReadStream (readOnlyFile.name f)])
   \<and> (ReadCloser f = Some s \<longrightarrow>
      Read w f n = (fst (streamRead w s n),
                    f \<lparr> ReadCloser := Some (snd (streamRead w s n)) \<rparr>, [EvStreamRead n])
      \<and> filter isReadStream (snd (Reads w f ns)) = []
      \<and> ReadCloser (fst (Reads w f ns)) \<noteq> None)
   \<and> (ReadCloser f = None \<and> clientReadStream w (client f) (readOnlyFile.name f) = (Inl err, c') \<longrightarrow>
      Read w f n = ((0, Some (translateWebDAVError w err)),
                    f \<lparr> ReadCloser := None, client := c' \<rparr>,
                    [EvReadStream (readOnlyFile.name f)])
      \<and> (\<exists>ev. snd (snd (Read w (fst (snd (Read w f n))) m))
                  = EvReadStream (readOnlyFile.name f) # ev))"
proof (intro conjI impI)
  assume a: "ReadCloser f = None \<and> clientReadStream w (client f) (readOnlyFile.name f) = (Inr s, c')"
  then show r: "Read w f n = (fst (streamRead w s n),
                    f \<lparr> ReadCloser := Some (snd (streamRead w s n)), client := c' \<rparr>,
                    [EvReadStream (readOnlyFile.name f), EvStreamRead n])"
    by (simp add: Read_opens)
  let ?f' = "f \<lparr> ReadCloser := Some (snd (streamRead w s n)), client := c' \<rparr>"
  have "ReadCloser ?f' \<noteq> None" by simp
  from Reads_latched [OF this, of w ns]
  show "filter isReadStream (snd (Reads w f (n # ns))) = [EvReadStream (readOnlyFile.name f)]"
    by (simp add: r case_prod_beta)
next
  assume b: "ReadCloser f = Some s"
  then show "Read w f n = (fst (streamRead w s n),
                    f \<lparr> ReadCloser := Some (snd (streamRead w s n)) \<rparr>, [EvStreamRead n])"
    by (rule Read_latched)
  from b have nn: "ReadCloser f \<noteq> None" by simp
  from Reads_latched [OF nn, of w ns]
  show "filter isReadStream (snd (Reads w f ns)) = []"
    and "ReadCloser (fst (Reads w f ns)) \<noteq> None" by simp_all
next
  assume c: "ReadCloser f = None \<and> clientReadStream w (client f) (readOnlyFile.name f) = (Inl err, c')"
  then show r: "Read w f n = ((0, Some (translateWebDAVError w err)),
                    f \<lparr> ReadCloser := None, client := c' \<rparr>,
                    [EvReadStream (readOnlyFile.name f)])"
    by (simp add: Read_open_fails)
  let ?f' = "f \<lparr> ReadCloser := None, client := c' \<rparr>"
  have "ReadCloser ?f' = None" by simp
  from Read_unopened_calls [OF this, of w m]
  show "\<exists>ev. snd (snd (Read w (fst (snd (Read w f n))) m))
                  = EvReadStream (readOnlyFile.name f) # ev"
    by (simp add: r)
qed

theorem read_opens_once_witness:
  "Read sampleWeb (sampleFile ''/f'') 4
     = ((4, None), (sampleFile ''/f'') \<lparr> ReadCloser := Some (6, 0), client := 1 \<rparr>,
        [EvReadStream ''/f'', EvStreamRead 4])
   \<and> filter isReadStream (snd (Reads sampleWeb (sampleFile ''/f'') [4, 4, 4]))
       = [EvReadStream ''/f'']
   \<and> Read sampleWeb (sampleFile ''/gone'') 4
       = ((0, Some ErrNotExist), (sampleFile ''/gone'') \<lparr> ReadCloser := None, client := 1 \<rparr>,
          [EvReadStream ''/gone''])"
proof -
  have a: "ReadCloser (sampleFile ''/f'') = None
      \<and> clientReadStream sampleWeb (client (sampleFile ''/f''))
            (readOnlyFile.name (sampleFile ''/f'')) = (Inr (10, 0), 1)"
    by (simp add: sampleFile_def sampleWeb_def)
  have b: "ReadCloser (sampleFile ''/gone'') = None
      \<and> clientReadStream sampleWeb (client (sampleFile ''/gone''))
            (readOnlyFile.name (sampleFile ''/gone'')) = (Inl ErrNotExist, 1)"
    by (simp add: sampleFile_def sampleWeb_def)
  have c: "streamRead sampleWeb (10, 0) 4 = ((4, None), (6, 0))"
    by (simp add: sampleWeb_def)
  have d: "translateWebDAVError sampleWeb ErrNotExist = ErrNotExist"
    by (simp add: sampleWeb_def)
  have n: "readOnlyFile.name (sampleFile ''/f'') = ''/f''"
    "readOnlyFile.name (sampleFile ''/gone'') = ''/gone''"
    by (simp_all add: sampleFile_def)
  show ?thesis
    using read_opens_once [where f = "sampleFile ''/f''" and w = sampleWeb and s = "(10, 0)"
        and c' = 1 and n = 4 and ns = "[4, 4]" and err = ErrNotExist and m = 4]
      read_opens_once [where f = "sampleFile ''/gone''" and w = sampleWeb and s = "(10, 0)"
        and c' = 1 and n = 4 and ns = "[4, 4]" and err = ErrNotExist and m = 4]
      a b
    by (simp add: c d n del: Reads.simps)
qed

text \<open>
  On a file that the server does not know, three \<open>Read\<close>s call \<open>ReadStream\<close> three times.
\<close>

theorem read_retries_counterexample:
  "snd (Reads sampleWeb (sampleFile ''/gone'') [4, 4, 4])
     = [EvReadStream ''/gone'', EvReadStream ''/gone'', EvReadStream ''/gone'']"
  by (simp add: Read_def initReaderIfNecessary_def sampleFile_def sampleWeb_def)

section \<open>Setting the remotes of a domain\<close>

text \<open>
  C10 (amended). When the domain is already a child of the top-level composite,
  \<open>SetRemotes\<close> leaves the top-level composite as it is and replaces only the children of
  that domain's composite in the heap, closing the children displaced there and nothing
  else. When the domain is not yet a child, \<open>SetRemotes\<close> replaces the whole set of
  children of the top-level composite by the one binding of the new domain: no other
  domain is found any more, and every child the top-level composite held has been
  closed.
\<close>

theorem set_remotes_frame:
  "(GetChild (cfs s) domain = Some (Composite a) \<and> a < length h \<longrightarrow>
      SetRemotes d s h domain namesToURLS transport wall
        = Inr (s,
               h[a := fst (SetChildren d (h ! a)
                             (fmmap (\<lambda>url. Remote url transport) namesToURLS))],
               closeAll d (children (h ! a))))
   \<and> (GetChild (cfs s) domain = None \<longrightarrow>
      (\<exists>s' h'. SetRemotes d s h domain namesToURLS transport wall
                  = Inr (s', h', closeAll d (children (cfs s)))
         \<and> fmdom' (childrenMap (cfs s')) = {domain}
         \<and> GetChild (cfs s') domain = Some (Composite (length h))
         \<and> (\<forall>other. other \<noteq> domain \<longrightarrow> GetChild (cfs s') other = None)))"
proof (intro conjI impI)
  assume "GetChild (cfs s) domain = Some (Composite a) \<and> a < length h"
  then show "SetRemotes d s h domain namesToURLS transport wall
        = Inr (s,
               h[a := fst (SetChildren d (h ! a)
                             (fmmap (\<lambda>url. Remote url transport) namesToURLS))],
               closeAll d (children (h ! a)))"
    by (simp add: SetRemotes_def Let_def SetChildren_def)
next
  assume n: "GetChild (cfs s) domain = None"
  let ?r1 = "SetChildren d (cfs s) (fmupd domain (Composite (length h)) fmempty)"
  let ?r2 = "SetChildren d (New \<lparr> StatChildren = False, Clock = None \<rparr> wall)
               (fmmap (\<lambda>url. Remote url transport) namesToURLS)"
  have e: "SetRemotes d s h domain namesToURLS transport wall
             = Inr (s \<lparr> cfs := fst ?r1 \<rparr>, h @ [fst ?r2], snd ?r1 @ snd ?r2)"
    using n by (simp add: SetRemotes_def Let_def)
  have l1: "snd ?r1 = closeAll d (children (cfs s))"
    by (simp add: SetChildren_def)
  have l2: "snd ?r2 = []"
    by (simp add: SetChildren_def New_def closeAll_def)
  have m: "childrenMap (fst ?r1)
             = fmupd domain \<lparr> name = domain, fs = Composite (length h) \<rparr> fmempty"
    by (simp add: SetChildren_def rebuildChildren_def fmap_ext)
  have p1: "fmdom' (childrenMap (fst ?r1)) = {domain}"
    unfolding m by (simp add: fmdom'_alt_def)
  have p2: "GetChild (fst ?r1) domain = Some (Composite (length h))"
    unfolding GetChild_def m by simp
  have p3: "\<forall>other. other \<noteq> domain \<longrightarrow> GetChild (fst ?r1) other = None"
    unfolding GetChild_def m by simp
  show "\<exists>s' h'. SetRemotes d s h domain namesToURLS transport wall
                  = Inr (s', h', closeAll d (children (cfs s)))
         \<and> fmdom' (childrenMap (cfs s')) = {domain}
         \<and> GetChild (cfs s') domain = Some (Composite (length h))
         \<and> (\<forall>other. other \<noteq> domain \<longrightarrow> GetChild (cfs s') other = None)"
    apply (rule exI [of _ "s \<lparr> cfs := fst ?r1 \<rparr>"])
    apply (rule exI [of _ "h @ [fst ?r2]"])
    using e l1 l2 p1 p2 p3 by simp
qed

theorem set_remotes_frame_witness:
  "SetRemotes localDeps localStart [] ''a.ts.net'' sampleURLs 0 0 = Inr (localA, heapA, [])
   \<and> GetChild (cfs localA) ''a.ts.net'' = Some (Composite 0)
   \<and> SetRemotes localDeps localA heapA ''a.ts.net'' fmempty 0 0
       = Inr (localA, [New \<lparr> StatChildren = False, Clock = None \<rparr> 0],
              [CallClose (Remote ''http://peer/'' 0)])
   \<and> GetChild (cfs localA) ''b.ts.net'' = None
   \<and> (\<exists>s' h'. SetRemotes localDeps localA heapA ''b.ts.net'' sampleURLs 0 0
          = Inr (s', h', [CallClose (Composite 0)])
        \<and> GetChild (cfs s') ''a.ts.net'' = None)"
proof -
  have r: "SetRemotes localDeps localStart [] ''a.ts.net'' sampleURLs 0 0
             = Inr (localA, heapA, [])"
    by code_simp
  have a: "GetChild (cfs localA) ''a.ts.net'' = Some (Composite 0)"
    by code_simp
  have b: "GetChild (cfs localA) ''b.ts.net'' = None"
    by code_simp
  have len: "(0::nat) < length heapA"
    by (simp add: heapA_def)
  have c: "closeAll localDeps (children (cfs localA)) = [CallClose (Composite 0)]"
    by code_simp
  have c2: "closeAll localDeps (children (heapA ! 0)) = [CallClose (Remote ''http://peer/'' 0)]"
    by code_simp
  have u: "heapA[0 := fst (SetChildren localDeps (heapA ! 0)
                             (fmmap (\<lambda>url. Remote url 0) fmempty))]
             = [New \<lparr> StatChildren = False, Clock = None \<rparr> 0]"
    by code_simp
  note t1 = set_remotes_frame [where s = localA and domain = "''a.ts.net''" and a = 0
      and h = heapA and d = localDeps and namesToURLS = fmempty and transport = 0 and wall = 0]
  note t2 = set_remotes_frame [where s = localA and domain = "''b.ts.net''" and a = 0
      and h = heapA and d = localDeps and namesToURLS = sampleURLs and transport = 0 and wall = 0]
  have x: "SetRemotes localDeps localA heapA ''a.ts.net'' fmempty 0 0
       = Inr (localA, [New \<lparr> StatChildren = False, Clock = None \<rparr> 0],
              [CallClose (Remote ''http://peer/'' 0)])"
    using t1 [THEN conjunct1, rule_format, OF conjI [OF a len]] unfolding c2 u .
  have "\<exists>s' h'. SetRemotes localDeps localA heapA ''b.ts.net'' sampleURLs 0 0
                  = Inr (s', h', closeAll localDeps (children (cfs localA)))
         \<and> fmdom' (childrenMap (cfs s')) = {''b.ts.net''}
         \<and> GetChild (cfs s') ''b.ts.net'' = Some (Composite (length heapA))
         \<and> (\<forall>other. other \<noteq> ''b.ts.net'' \<longrightarrow> GetChild (cfs s') other = None)"
    using t2 [THEN conjunct2, rule_format, OF b] .
  then obtain s' h' where
    e1: "SetRemotes localDeps localA heapA ''b.ts.net'' sampleURLs 0 0
           = Inr (s', h', closeAll localDeps (children (cfs localA)))"
    and e2: "\<forall>other. other \<noteq> ''b.ts.net'' \<longrightarrow> GetChild (cfs s') other = None"
    by (elim exE conjE)
  have n: "''a.ts.net'' \<noteq> ''b.ts.net''" by simp
  have e3: "GetChild (cfs s') ''a.ts.net'' = None"
    using e2 [rule_format, OF n] .
  have e4: "SetRemotes localDeps localA heapA ''b.ts.net'' sampleURLs 0 0
           = Inr (s', h', [CallClose (Composite 0)])"
    using e1 unfolding c .
  have y: "\<exists>s' h'. SetRemotes localDeps localA heapA ''b.ts.net'' sampleURLs 0 0
          = Inr (s', h', [CallClose (Composite 0)])
        \<and> GetChild (cfs s') ''a.ts.net'' = None"
    using e3 e4 by (intro exI conjI)
  show ?thesis
    using r a x b y by (intro conjI)
qed

text \<open>
  On a local gateway where the domain \<open>a.ts.net\<close> is installed, \<open>SetRemotes\<close> for the new
  domain \<open>b.ts.net\<close> leaves \<open>a.ts.net\<close> unbound and has closed its composite.
\<close>

theorem set_remotes_drops_other_domain:
  "SetRemotes localDeps localStart [] ''a.ts.net'' sampleURLs 0 0 = Inr (localA, heapA, [])
   \<and> GetChild (cfs localA) ''a.ts.net'' = Some (Composite 0)
   \<and> SetRemotes localDeps localA heapA ''b.ts.net'' sampleURLs 0 0
       = Inr (localB, heapA @ heapA, [CallClose (Composite 0)])
   \<and> GetChild (cfs localB) ''a.ts.net'' = None"
  by code_simp

end
